theory Spec2Isabelle
  imports Complex_Main "HOL-Library.Word"
begin

section \<open>Python numbers\<close>

text \<open>
  The scripts compute with Python's unbounded integers (\<open>int\<close> here) and with its
  floats, which are IEEE 754 binary64 numbers: 53 significant bits, every operation
  rounded to the nearest representable number, ties to the even significand.
  A float is modelled as the rational number it denotes. The exponent range of
  binary64 is not modelled: Pillow holds an image's width and height in C ints, so
  every dimension is below \<open>2 ^ 31\<close> and every float of these scripts lies between
  \<open>2 ^ - 21\<close> and \<open>2 ^ 43\<close>, far inside the range of normal numbers.
\<close>

datatype error =
    ZeroDivisionError
  | ValueError
  | FileExistsError
  | FileNotFoundError
  | IsADirectoryError
  | UnidentifiedImageError

text \<open>\<open>int.bit_length\<close>: the number of binary digits of a positive integer.\<close>

function bit_length :: "int \<Rightarrow> nat" where
  "bit_length n = (if n \<le> 0 then 0 else Suc (bit_length (n div 2)))"
  by pat_completeness auto
termination
  by (relation "measure nat") auto

declare bit_length.simps [simp del]

definition pow2 :: "int \<Rightarrow> rat" where
  "pow2 e = (if 0 \<le> e then 2 ^ nat e else 1 / 2 ^ nat (- e))"

text \<open>The binary exponent of a positive rational: \<open>pow2 (ilog2 x) \<le> x < pow2 (ilog2 x + 1)\<close>.\<close>

definition ilog2 :: "rat \<Rightarrow> int" where
  "ilog2 x =
     (if 1 \<le> x then int (bit_length \<lfloor>x\<rfloor>) - 1
      else - int (bit_length (\<lceil>1 / x\<rceil> - 1)))"

text \<open>Rounding a non-negative rational to the nearest integer, ties to even.\<close>

definition round_half_even :: "rat \<Rightarrow> int" where
  "round_half_even t =
     (let n = \<lfloor>t\<rfloor>; r = t - of_int n
      in if r < 1 / 2 then n
         else if 1 / 2 < r then n + 1
         else if even n then n else n + 1)"

text \<open>
  Rounding a positive rational to 53 significant bits: scale it into
  \<open>[2 ^ 52, 2 ^ 53)\<close>, round to an integer, scale back.
\<close>

definition round_pos :: "rat \<Rightarrow> rat" where
  "round_pos x =
     (let e = ilog2 x - 52
      in of_int (round_half_even (x / pow2 e)) * pow2 e)"

definition round_binary64 :: "rat \<Rightarrow> rat" where
  "round_binary64 x =
     (if x = 0 then 0 else if x < 0 then - round_pos (- x) else round_pos x)"

text \<open>
  \<open>a / b\<close> on two ints is the correctly rounded quotient and raises
  \<open>ZeroDivisionError\<close> when \<open>b\<close> is zero; \<open>n * x\<close> on an int and a float
  converts the int to a float and multiplies, each step rounded; \<open>int(x)\<close>
  truncates towards zero.
\<close>

definition truediv :: "int \<Rightarrow> int \<Rightarrow> error + rat" where
  "truediv a b =
     (if b = 0 then Inl ZeroDivisionError
      else Inr (round_binary64 (of_int a / of_int b)))"

definition float_of_int :: "int \<Rightarrow> rat" where
  "float_of_int n = round_binary64 (of_int n)"

definition float_mul :: "rat \<Rightarrow> rat \<Rightarrow> rat" where
  "float_mul x y = round_binary64 (x * y)"

definition int_mul_float :: "int \<Rightarrow> rat \<Rightarrow> rat" where
  "int_mul_float n x = float_mul (float_of_int n) x"

definition int_of_float :: "rat \<Rightarrow> int" where
  "int_of_float x = (if 0 \<le> x then \<lfloor>x\<rfloor> else \<lceil>x\<rceil>)"

section \<open>create_appstore_screenshots.py: the scaling step\<close>

definition APPSTORE_WIDTH :: int where
  "APPSTORE_WIDTH = 1284"

definition APPSTORE_HEIGHT :: int where
  "APPSTORE_HEIGHT = 2778"

text \<open>
  Lines 29 to 41 of \<open>create_appstore_screenshot\<close>: from the size of the source
  image to the final \<open>scale\<close>, \<open>new_width\<close> and \<open>new_height\<close>.
\<close>

definition new_size :: "int \<Rightarrow> int \<Rightarrow> error + (rat \<times> int \<times> int)" where
  "new_size orig_width orig_height =
     (case truediv APPSTORE_WIDTH orig_width of
        Inl e \<Rightarrow> Inl e
      | Inr scale \<Rightarrow>
          let new_height = int_of_float (int_mul_float orig_height scale)
          in if new_height > APPSTORE_HEIGHT then
               (case truediv APPSTORE_HEIGHT orig_height of
                  Inl e \<Rightarrow> Inl e
                | Inr scale \<Rightarrow>
                    let new_width = int_of_float (int_mul_float orig_width scale);
                        new_height = APPSTORE_HEIGHT
                    in Inr (scale, new_width, new_height))
             else
               let new_width = APPSTORE_WIDTH
               in Inr (scale, new_width, new_height))"

section \<open>Pillow images\<close>

text \<open>
  An image is its size and its pixels; the mode is the type of a pixel: \<open>L\<close> has
  one 8-bit band, \<open>RGB\<close> three and \<open>RGBA\<close> four, the last being alpha. Pixels
  outside the size carry no meaning. A decoded file is an \<open>RGB\<close> or an
  \<open>RGBA\<close> image.
\<close>

type_synonym grey = "8 word"

type_synonym rgb = "8 word \<times> 8 word \<times> 8 word"

type_synonym rgba = "8 word \<times> 8 word \<times> 8 word \<times> 8 word"

record 'p image =
  width :: nat
  height :: nat
  px :: "nat \<Rightarrow> nat \<Rightarrow> 'p"

datatype picture = RGB_picture "rgb image" | RGBA_picture "rgba image"

text \<open>\<open>Image.new(mode, size, color)\<close>: an image of that size filled with one colour.\<close>

definition new_image :: "nat \<times> nat \<Rightarrow> 'p \<Rightarrow> 'p image" where
  "new_image sz color = \<lparr>width = fst sz, height = snd sz, px = (\<lambda>i j. color)\<rparr>"

text \<open>
  \<open>convert("RGB")\<close> drops the alpha band of an \<open>RGBA\<close> image;
  \<open>convert("RGBA")\<close> gives an \<open>RGB\<close> image the alpha 255.
\<close>

definition convert_RGB :: "picture \<Rightarrow> rgb image" where
  "convert_RGB pic =
     (case pic of
        RGB_picture im \<Rightarrow> im
      | RGBA_picture im \<Rightarrow>
          \<lparr>width = width im, height = height im,
           px = (\<lambda>i j. case px im i j of (r, g, b, a) \<Rightarrow> (r, g, b))\<rparr>)"

definition convert_RGBA :: "picture \<Rightarrow> rgba image" where
  "convert_RGBA pic =
     (case pic of
        RGBA_picture im \<Rightarrow> im
      | RGB_picture im \<Rightarrow>
          \<lparr>width = width im, height = height im,
           px = (\<lambda>i j. case px im i j of (r, g, b) \<Rightarrow> (r, g, b, 255))\<rparr>)"

text \<open>
  \<open>im.resize(size, LANCZOS)\<close>: an image of the size requested. A request for the
  size the image already has returns a copy; a width or height below 1 raises
  \<open>ValueError\<close>. The pixels the Lanczos filter computes are a parameter,
  \<open>lanczos im (w, h) i j\<close>.
\<close>

definition resize ::
  "('p image \<Rightarrow> nat \<times> nat \<Rightarrow> nat \<Rightarrow> nat \<Rightarrow> 'p) \<Rightarrow> 'p image \<Rightarrow> int \<times> int \<Rightarrow> error + 'p image" where
  "resize lanczos im sz =
     (case sz of (w, h) \<Rightarrow>
        if (int (width im), int (height im)) = (w, h) then Inr im
        else if w < 1 \<or> h < 1 then Inl ValueError
        else Inr \<lparr>width = nat w, height = nat h, px = lanczos im (nat w, nat h)\<rparr>)"

text \<open>
  \<open>canvas.paste(im, (x, y))\<close> without a mask: the pixels of \<open>im\<close> replace those
  of the canvas in the box whose upper left corner is \<open>(x, y)\<close>, clipped to the
  canvas; the canvas keeps its size.
\<close>

definition paste :: "'p image \<Rightarrow> 'p image \<Rightarrow> int \<times> int \<Rightarrow> 'p image" where
  "paste canvas im box =
     (case box of (x, y) \<Rightarrow>
        canvas\<lparr>px := (\<lambda>i j.
          if x \<le> int i \<and> int i < x + int (width im) \<and> y \<le> int j \<and> int j < y + int (height im)
          then px im (nat (int i - x)) (nat (int j - y))
          else px canvas i j)\<rparr>)"

text \<open>
  \<open>Image.alpha_composite(im1, im2)\<close>: \<open>im2\<close> composited over \<open>im1\<close>, pixel by
  pixel; both have the same size, or \<open>ValueError\<close> is raised. The blend of one
  pixel over another is a parameter, \<open>over backdrop top\<close>.
\<close>

definition alpha_composite ::
  "(rgba \<Rightarrow> rgba \<Rightarrow> rgba) \<Rightarrow> rgba image \<Rightarrow> rgba image \<Rightarrow> error + rgba image" where
  "alpha_composite over im1 im2 =
     (if width im1 \<noteq> width im2 \<or> height im1 \<noteq> height im2 then Inl ValueError
      else Inr \<lparr>width = width im1, height = height im1,
                px = (\<lambda>i j. over (px im1 i j) (px im2 i j))\<rparr>)"

text \<open>\<open>im.putalpha(mask)\<close>: the \<open>L\<close> image given becomes the alpha band.\<close>

definition putalpha :: "rgba image \<Rightarrow> grey image \<Rightarrow> rgba image" where
  "putalpha im alpha =
     im\<lparr>px := (\<lambda>i j. case px im i j of (r, g, b, a) \<Rightarrow> (r, g, b, px alpha i j))\<rparr>"

text \<open>
  Modelled from the spec: Pillow's rasteriser \<open>ImageDraw.rounded_rectangle\<close>, which
  is not part of the repository. The spec's words: the pixels inside a rectangle
  of size \<open>w \<times> h\<close> with corners rounded by radius \<open>r\<close>. The call passes the
  bounding box \<open>[(0, 0), (w, h)]\<close>; a pixel is outside when it lies in one of the
  four corner squares of side \<open>r\<close> and farther than \<open>r\<close> from that corner's centre.
\<close>

definition inside_rounded_rectangle :: "int \<times> int \<Rightarrow> int \<Rightarrow> int \<Rightarrow> int \<Rightarrow> bool" where
  "inside_rounded_rectangle sz r x y =
     (case sz of (w, h) \<Rightarrow>
        0 \<le> x \<and> x \<le> w \<and> 0 \<le> y \<and> y \<le> h \<and>
        (let dx = (if x < r then r - x else if w - r < x then x - (w - r) else 0);
             dy = (if y < r then r - y else if h - r < y then y - (h - r) else 0)
         in dx = 0 \<or> dy = 0 \<or> dx * dx + dy * dy \<le> r * r))"

text \<open>\<open>draw.rounded_rectangle([(0, 0), size], radius=radius, fill=fill)\<close> on an image.\<close>

definition rounded_rectangle :: "'p image \<Rightarrow> int \<times> int \<Rightarrow> int \<Rightarrow> 'p \<Rightarrow> 'p image" where
  "rounded_rectangle im sz radius fill =
     im\<lparr>px := (\<lambda>i j.
       if inside_rounded_rectangle sz radius (int i) (int j) then fill else px im i j)\<rparr>"

section \<open>Files, paths and console output\<close>

text \<open>
  The file system maps a path to what is there: a file that decodes as an image,
  any other file, or a directory. The world the scripts act on is the file system
  and the lines printed so far.
\<close>

datatype entry = ImageFile picture | OtherFile | Directory

record world =
  files :: "string \<rightharpoonup> entry"
  stdout :: "string list"

definition print :: "world \<Rightarrow> string \<Rightarrow> world" where
  "print st line = st\<lparr>stdout := stdout st @ [line]\<rparr>"

text \<open>\<open>os.path.exists\<close>.\<close>

definition path_exists :: "world \<Rightarrow> string \<Rightarrow> bool" where
  "path_exists st p = (files st p \<noteq> None)"

text \<open>\<open>Image.open(path)\<close> followed by the decoding that \<open>convert\<close> forces.\<close>

definition open_image :: "world \<Rightarrow> string \<Rightarrow> error + picture" where
  "open_image st p =
     (case files st p of
        None \<Rightarrow> Inl FileNotFoundError
      | Some (ImageFile pic) \<Rightarrow> Inr pic
      | Some OtherFile \<Rightarrow> Inl UnidentifiedImageError
      | Some Directory \<Rightarrow> Inl IsADirectoryError)"

text \<open>\<open>im.save(path, "PNG")\<close>: the file is created or overwritten.\<close>

definition save :: "world \<Rightarrow> string \<Rightarrow> picture \<Rightarrow> error + world" where
  "save st p pic =
     (case files st p of
        Some Directory \<Rightarrow> Inl IsADirectoryError
      | _ \<Rightarrow> Inr (st\<lparr>files := (files st)(p \<mapsto> ImageFile pic)\<rparr>))"

text \<open>\<open>os.makedirs(path, exist_ok=True)\<close>.\<close>

definition makedirs :: "world \<Rightarrow> string \<Rightarrow> error + world" where
  "makedirs st p =
     (case files st p of
        None \<Rightarrow> Inr (st\<lparr>files := (files st)(p \<mapsto> Directory)\<rparr>)
      | Some Directory \<Rightarrow> Inr st
      | Some _ \<Rightarrow> Inl FileExistsError)"

text \<open>\<open>os.path.join\<close> of two components, as \<open>posixpath\<close> defines it.\<close>

definition path_join :: "string \<Rightarrow> string \<Rightarrow> string" where
  "path_join a b =
     (if b \<noteq> [] \<and> hd b = CHR ''/'' then b
      else if a = [] \<or> last a = CHR ''/'' then a @ b
      else a @ ''/'' @ b)"

text \<open>\<open>str.rfind\<close> of one character: the last index where it occurs, or \<open>-1\<close>.\<close>

fun rfind :: "string \<Rightarrow> char \<Rightarrow> int" where
  "rfind [] c = - 1"
| "rfind (x # xs) c =
     (let r = rfind xs c
      in if 0 \<le> r then r + 1 else if x = c then 0 else - 1)"

text \<open>
  \<open>os.path.splitext\<close>: the extension starts at the last dot of the last
  component, unless only dots precede it there.
\<close>

definition splitext :: "string \<Rightarrow> string \<times> string" where
  "splitext p =
     (let sepIndex = rfind p CHR ''/'';
          dotIndex = rfind p CHR ''.''
      in if sepIndex < dotIndex \<and>
            list_ex (\<lambda>c. c \<noteq> CHR ''.'')
              (take (nat (dotIndex - (sepIndex + 1))) (drop (nat (sepIndex + 1)) p))
         then (take (nat dotIndex) p, drop (nat dotIndex) p)
         else (p, []))"

text \<open>\<open>str\<close> of an integer, as an f-string formats it.\<close>

function str_digits :: "int \<Rightarrow> string" where
  "str_digits n =
     (if n < 10 then [''0123456789'' ! nat n]
      else str_digits (n div 10) @ [''0123456789'' ! nat (n mod 10)])"
  by pat_completeness auto
termination
  by (relation "measure nat") auto

declare str_digits.simps [simp del]

definition str_int :: "int \<Rightarrow> string" where
  "str_int i = (if i < 0 then CHR ''-'' # str_digits (- i) else str_digits i)"

section \<open>create_appstore_screenshots.py\<close>

definition appstore_SCREENSHOTS :: "string list" where
  "appstore_SCREENSHOTS = [''PreWorkout.PNG'', ''Workout.PNG'', ''Activity.PNG'', ''Bubble.PNG'']"

text \<open>
  Lines 46 to 52 of \<open>create_appstore_screenshot\<close>: the black canvas of the App
  Store size with the resized screenshot pasted at the centring offsets.
\<close>

definition paste_offset :: "int \<Rightarrow> int \<Rightarrow> int \<times> int" where
  "paste_offset new_width new_height =
     (let x = (APPSTORE_WIDTH - new_width) div 2;
          y = (APPSTORE_HEIGHT - new_height) div 2
      in (x, y))"

definition letterbox :: "rgb image \<Rightarrow> int \<Rightarrow> int \<Rightarrow> rgb image" where
  "letterbox img_resized new_width new_height =
     (let canvas = new_image (nat APPSTORE_WIDTH, nat APPSTORE_HEIGHT) (0, 0, 0)
      in paste canvas img_resized (paste_offset new_width new_height))"

text \<open>Lines 26 to 52: from the decoded file to the canvas that is saved.\<close>

definition appstore_canvas ::
  "(rgb image \<Rightarrow> nat \<times> nat \<Rightarrow> nat \<Rightarrow> nat \<Rightarrow> rgb) \<Rightarrow> picture \<Rightarrow> error + rgb image" where
  "appstore_canvas lanczos pic =
     (let img = convert_RGB pic;
          orig_width = int (width img);
          orig_height = int (height img)
      in case new_size orig_width orig_height of
           Inl e \<Rightarrow> Inl e
         | Inr (scale, new_width, new_height) \<Rightarrow>
             (case resize lanczos img (new_width, new_height) of
                Inl e \<Rightarrow> Inl e
              | Inr img_resized \<Rightarrow> Inr (letterbox img_resized new_width new_height)))"

definition create_appstore_screenshot ::
  "(rgb image \<Rightarrow> nat \<times> nat \<Rightarrow> nat \<Rightarrow> nat \<Rightarrow> rgb) \<Rightarrow> string \<Rightarrow> string \<Rightarrow> world \<Rightarrow> error + world" where
  "create_appstore_screenshot lanczos screenshot_path output_path st =
     (case open_image st screenshot_path of
        Inl e \<Rightarrow> Inl e
      | Inr pic \<Rightarrow>
          (case appstore_canvas lanczos pic of
             Inl e \<Rightarrow> Inl e
           | Inr canvas \<Rightarrow>
               (case save st output_path (RGB_picture canvas) of
                  Inl e \<Rightarrow> Inl e
                | Inr st' \<Rightarrow>
                    Inr (print st' (''  Saved: '' @ output_path @ '' ('' @
                      str_int APPSTORE_WIDTH @ ''x'' @ str_int APPSTORE_HEIGHT @ '')'')))))"

text \<open>The loop of \<open>main\<close>, lines 65 to 75.\<close>

fun appstore_loop ::
  "(rgb image \<Rightarrow> nat \<times> nat \<Rightarrow> nat \<Rightarrow> nat \<Rightarrow> rgb) \<Rightarrow> string \<Rightarrow> string \<Rightarrow> string list \<Rightarrow> world \<Rightarrow> error + world" where
  "appstore_loop lanczos script_dir output_dir [] st = Inr st"
| "appstore_loop lanczos script_dir output_dir (screenshot_name # rest) st =
     (let screenshot_path = path_join script_dir screenshot_name
      in if \<not> path_exists st screenshot_path then
           appstore_loop lanczos script_dir output_dir rest
             (print st (''Skipping '' @ screenshot_name @ '' - not found''))
         else
           let base_name = fst (splitext screenshot_name);
               output_path = path_join output_dir (base_name @ ''-appstore.png'');
               st1 = print st (''\<newline>Processing: '' @ screenshot_name)
           in case create_appstore_screenshot lanczos screenshot_path output_path st1 of
                Inl e \<Rightarrow> Inl e
              | Inr st2 \<Rightarrow> appstore_loop lanczos script_dir output_dir rest st2)"

definition appstore_main ::
  "(rgb image \<Rightarrow> nat \<times> nat \<Rightarrow> nat \<Rightarrow> nat \<Rightarrow> rgb) \<Rightarrow> string \<Rightarrow> world \<Rightarrow> error + world" where
  "appstore_main lanczos script_dir st =
     (let st1 = print st ''Creating App Store screenshots...'';
          st2 = print st1 (''Target size: '' @ str_int APPSTORE_WIDTH @ '' x '' @
                  str_int APPSTORE_HEIGHT);
          output_dir = path_join script_dir ''appstore''
      in case makedirs st2 output_dir of
           Inl e \<Rightarrow> Inl e
         | Inr st3 \<Rightarrow>
             (case appstore_loop lanczos script_dir output_dir appstore_SCREENSHOTS st3 of
                Inl e \<Rightarrow> Inl e
              | Inr st4 \<Rightarrow>
                  Inr (print st4 (''\<newline>Done! Screenshots saved to: '' @ output_dir))))"

section \<open>create_mockups.py\<close>

definition BEZEL_PATH :: "string \<Rightarrow> string" where
  "BEZEL_PATH script_dir = path_join script_dir ''iPhone 16 - Black - Portrait.png''"

definition mockup_SCREENSHOTS :: "string list" where
  "mockup_SCREENSHOTS =
     [''PreWorkout.PNG'', ''Workout.PNG'', ''Activity.PNG'', ''Bubble.PNG'', ''Splash.PNG'']"

definition SCREEN_LEFT :: int where
  "SCREEN_LEFT = 90"

definition SCREEN_TOP :: int where
  "SCREEN_TOP = 90"

definition SCREEN_RIGHT :: int where
  "SCREEN_RIGHT = 1268"

definition SCREEN_BOTTOM :: int where
  "SCREEN_BOTTOM = 2645"

definition CORNER_RADIUS :: int where
  "CORNER_RADIUS = 110"

text \<open>Lines 39 to 41 of \<open>add_rounded_corners\<close>: the mask.\<close>

definition rounded_mask :: "nat \<times> nat \<Rightarrow> int \<Rightarrow> grey image" where
  "rounded_mask sz radius =
     rounded_rectangle (new_image sz 0) (int (fst sz), int (snd sz)) radius 255"

definition add_rounded_corners :: "rgba image \<Rightarrow> int \<Rightarrow> rgba image" where
  "add_rounded_corners img radius =
     (let alpha = rounded_mask (width img, height img) radius;
          result = img
      in putalpha result alpha)"

text \<open>Lines 56 to 64 of \<open>create_mockup\<close>: the screenshot stretched to the screen area.\<close>

definition stretch_to_screen ::
  "(rgba image \<Rightarrow> nat \<times> nat \<Rightarrow> nat \<Rightarrow> nat \<Rightarrow> rgba) \<Rightarrow> rgba image \<Rightarrow> error + rgba image" where
  "stretch_to_screen lanczos screenshot =
     (let screen_width = SCREEN_RIGHT - SCREEN_LEFT;
          screen_height = SCREEN_BOTTOM - SCREEN_TOP
      in resize lanczos screenshot (screen_width, screen_height))"

text \<open>Lines 71 to 74: the transparent canvas with the masked screenshot pasted.\<close>

definition mockup_canvas :: "rgba image \<Rightarrow> rgba image \<Rightarrow> rgba image" where
  "mockup_canvas bezel screenshot_resized =
     (let result = new_image (width bezel, height bezel) (0, 0, 0, 0)
      in paste result screenshot_resized (SCREEN_LEFT, SCREEN_TOP))"

text \<open>Lines 56 to 77: from the two decoded images to the image that is saved.\<close>

definition mockup_image ::
  "(rgba image \<Rightarrow> nat \<times> nat \<Rightarrow> nat \<Rightarrow> nat \<Rightarrow> rgba) \<Rightarrow> (rgba \<Rightarrow> rgba \<Rightarrow> rgba) \<Rightarrow>
   rgba image \<Rightarrow> rgba image \<Rightarrow> error + rgba image" where
  "mockup_image lanczos over bezel screenshot =
     (case stretch_to_screen lanczos screenshot of
        Inl e \<Rightarrow> Inl e
      | Inr screenshot_resized \<Rightarrow>
          let screenshot_resized = add_rounded_corners screenshot_resized CORNER_RADIUS;
              result = mockup_canvas bezel screenshot_resized
          in alpha_composite over result bezel)"

definition create_mockup ::
  "(rgba image \<Rightarrow> nat \<times> nat \<Rightarrow> nat \<Rightarrow> nat \<Rightarrow> rgba) \<Rightarrow> (rgba \<Rightarrow> rgba \<Rightarrow> rgba) \<Rightarrow>
   string \<Rightarrow> string \<Rightarrow> string \<Rightarrow> world \<Rightarrow> error + world" where
  "create_mockup lanczos over bezel_path screenshot_path output_path st =
     (case open_image st bezel_path of
        Inl e \<Rightarrow> Inl e
      | Inr bezel_pic \<Rightarrow>
          (case open_image st screenshot_path of
             Inl e \<Rightarrow> Inl e
           | Inr screenshot_pic \<Rightarrow>
               let bezel = convert_RGBA bezel_pic;
                   screenshot = convert_RGBA screenshot_pic;
                   st1 = print st (''  Screen area: ('' @ str_int SCREEN_LEFT @ '', '' @
                           str_int SCREEN_TOP @ '') to ('' @ str_int SCREEN_RIGHT @ '', '' @
                           str_int SCREEN_BOTTOM @ '')'');
                   st2 = print st1 (''  Screen size: '' @
                           str_int (SCREEN_RIGHT - SCREEN_LEFT) @ '' x '' @
                           str_int (SCREEN_BOTTOM - SCREEN_TOP))
               in case mockup_image lanczos over bezel screenshot of
                    Inl e \<Rightarrow> Inl e
                  | Inr result \<Rightarrow>
                      (case save st2 output_path (RGBA_picture result) of
                         Inl e \<Rightarrow> Inl e
                       | Inr st3 \<Rightarrow> Inr (print st3 (''  Saved: '' @ output_path)))))"

text \<open>The loop of \<open>main\<close>, lines 93 to 105.\<close>

fun mockup_loop ::
  "(rgba image \<Rightarrow> nat \<times> nat \<Rightarrow> nat \<Rightarrow> nat \<Rightarrow> rgba) \<Rightarrow> (rgba \<Rightarrow> rgba \<Rightarrow> rgba) \<Rightarrow>
   string \<Rightarrow> string list \<Rightarrow> world \<Rightarrow> error + world" where
  "mockup_loop lanczos over script_dir [] st = Inr st"
| "mockup_loop lanczos over script_dir (screenshot_name # rest) st =
     (let screenshot_path = path_join script_dir screenshot_name
      in if \<not> path_exists st screenshot_path then
           mockup_loop lanczos over script_dir rest
             (print st (''Skipping '' @ screenshot_name @ '' - not found''))
         else
           let base_name = fst (splitext screenshot_name);
               output_name = base_name @ ''-mockup.png'';
               output_path = path_join script_dir output_name;
               st1 = print st (''\<newline>Processing: '' @ screenshot_name)
           in case create_mockup lanczos over (BEZEL_PATH script_dir) screenshot_path
                     output_path st1 of
                Inl e \<Rightarrow> Inl e
              | Inr st2 \<Rightarrow> mockup_loop lanczos over script_dir rest st2)"

definition mockup_main ::
  "(rgba image \<Rightarrow> nat \<times> nat \<Rightarrow> nat \<Rightarrow> nat \<Rightarrow> rgba) \<Rightarrow> (rgba \<Rightarrow> rgba \<Rightarrow> rgba) \<Rightarrow>
   string \<Rightarrow> world \<Rightarrow> error + world" where
  "mockup_main lanczos over script_dir st =
     (let st1 = print st ''Creating iPhone mockups...'';
          st2 = print st1 (''Bezel: '' @ BEZEL_PATH script_dir)
      in if \<not> path_exists st2 (BEZEL_PATH script_dir) then
           Inr (print st2 (''Error: Bezel not found at '' @ BEZEL_PATH script_dir))
         else
           (case mockup_loop lanczos over script_dir mockup_SCREENSHOTS st2 of
              Inl e \<Rightarrow> Inl e
            | Inr st3 \<Rightarrow> Inr (print st3 ''\<newline>Done!'')))"

text \<open>
  The scaling policy in the spec's words, for comparison with \<open>new_size\<close>:
  \<open>s = W / w\<close>; if the resulting height \<open>h * s\<close> exceeds \<open>H\<close>, \<open>s = H / h\<close>
  instead; the new dimensions are the truncations of \<open>w * s\<close> and \<open>h * s\<close>.
\<close>

definition spec_aspect_fit :: "int \<Rightarrow> int \<Rightarrow> error + (rat \<times> int \<times> int)" where
  "spec_aspect_fit w h =
     (case truediv APPSTORE_WIDTH w of
        Inl e \<Rightarrow> Inl e
      | Inr s \<Rightarrow>
          if of_int APPSTORE_HEIGHT < int_mul_float h s then
            (case truediv APPSTORE_HEIGHT h of
               Inl e \<Rightarrow> Inl e
             | Inr s' \<Rightarrow>
                 Inr (s', int_of_float (int_mul_float w s'), int_of_float (int_mul_float h s')))
          else Inr (s, int_of_float (int_mul_float w s), int_of_float (int_mul_float h s)))"

section \<open>Rounding error of binary64 arithmetic\<close>

lemma bit_length_bounds:
  "0 < n \<Longrightarrow> 2 ^ (bit_length n - 1) \<le> n \<and> n < 2 ^ bit_length n"
proof (induction n rule: bit_length.induct)
  case (1 n)
  show ?case
  proof (cases "n div 2 \<le> 0")
    case True
    with "1.prems" have "n = 1" by presburger
    then show ?thesis by (simp add: bit_length.simps)
  next
    case False
    then have pos: "0 < n div 2" by simp
    have npos: "\<not> n \<le> 0" using "1.prems" by simp
    from "1.IH" [OF npos pos]
    have ih: "2 ^ (bit_length (n div 2) - 1) \<le> n div 2" "n div 2 < 2 ^ bit_length (n div 2)"
      by auto
    have bl: "bit_length n = Suc (bit_length (n div 2))"
      using "1.prems" by (subst bit_length.simps) simp
    have blpos: "0 < bit_length (n div 2)"
      using pos by (subst bit_length.simps) simp
    then obtain k where k: "bit_length (n div 2) = Suc k" by (cases "bit_length (n div 2)") auto
    from ih k have "2 * 2 ^ k \<le> 2 * (n div 2)" by simp
    moreover have "2 * (n div 2) \<le> n" by presburger
    ultimately have lo: "2 ^ (bit_length n - 1) \<le> n" using bl k by simp
    from ih(2) have "n div 2 + 1 \<le> 2 ^ bit_length (n div 2)" by simp
    then have "2 * (n div 2) + 2 \<le> 2 * 2 ^ bit_length (n div 2)" by simp
    moreover have "n < 2 * (n div 2) + 2" by presburger
    ultimately have hi: "n < 2 ^ bit_length n" using bl by simp
    from lo hi show ?thesis by simp
  qed
qed

lemma pow2_pos: "0 < pow2 e"
  by (simp add: pow2_def)

lemma pow2_powi: "pow2 e = 2 powi e"
  by (simp add: pow2_def power_int_def field_simps)

lemma pow2_of_nat: "pow2 (int k) = 2 ^ k"
  by (simp add: pow2_def)

lemma pow2_neg_nat: "pow2 (- int k) = 1 / 2 ^ k"
  by (simp add: pow2_powi power_int_minus field_simps)

lemma pow2_add: "pow2 (a + b) = pow2 a * pow2 b"
  by (simp add: pow2_powi power_int_add)

lemma pow2_52: "pow2 e = pow2 (e - 52) * 2 ^ 52"
proof -
  have "pow2 e = pow2 ((e - 52) + 52)" by simp
  also have "\<dots> = pow2 (e - 52) * pow2 52" by (rule pow2_add)
  also have "pow2 52 = 2 ^ 52" by (simp add: pow2_def)
  finally show ?thesis .
qed

lemma ilog2_bounds:
  assumes "0 < x"
  shows "pow2 (ilog2 x) \<le> x \<and> x < pow2 (ilog2 x + 1)"
proof (cases "1 \<le> x")
  case True
  define n where "n = \<lfloor>x\<rfloor>"
  have npos: "0 < n" using True by (simp add: n_def)
  have nx: "of_int n \<le> x" "x < of_int n + 1" unfolding n_def by linarith+
  from bit_length_bounds [OF npos]
  have b: "2 ^ (bit_length n - 1) \<le> n" "n + 1 \<le> 2 ^ bit_length n" by auto
  have blpos: "0 < bit_length n" using npos by (subst bit_length.simps) simp
  have il: "ilog2 x = int (bit_length n - 1)"
    using True blpos by (simp add: ilog2_def n_def)
  have il1: "ilog2 x + 1 = int (bit_length n)"
    using il blpos by simp
  have "(2::rat) ^ (bit_length n - 1) \<le> of_int n"
    using b(1) by (metis of_int_le_iff of_int_numeral of_int_power)
  then have lo: "pow2 (ilog2 x) \<le> x" using nx(1) unfolding il pow2_of_nat by linarith
  have "of_int (n + 1) \<le> (2::rat) ^ bit_length n"
    using b(2) by (metis of_int_le_iff of_int_numeral of_int_power)
  then have "of_int n + 1 \<le> (2::rat) ^ bit_length n" by simp
  then have hi: "x < pow2 (ilog2 x + 1)" using nx(2) unfolding il1 pow2_of_nat by linarith
  from lo hi show ?thesis ..
next
  case False
  define y where "y = 1 / x"
  have y1: "1 < y" using False assms by (simp add: y_def)
  define m where "m = \<lceil>y\<rceil> - 1"
  have c2: "2 \<le> \<lceil>y\<rceil>" using y1 by (simp add: le_ceiling_iff)
  have mpos: "0 < m" using c2 by (simp add: m_def)
  have my: "of_int m < y" "y \<le> of_int m + 1" unfolding m_def by linarith+
  from bit_length_bounds [OF mpos]
  have b: "2 ^ (bit_length m - 1) \<le> m" "m + 1 \<le> 2 ^ bit_length m" by auto
  have blpos: "0 < bit_length m" using mpos by (subst bit_length.simps) simp
  have il: "ilog2 x = - int (bit_length m)"
    using False by (simp add: ilog2_def m_def y_def)
  have il1: "ilog2 x + 1 = - int (bit_length m - 1)"
    using il blpos by simp
  have "of_int (m + 1) \<le> (2::rat) ^ bit_length m"
    using b(2) by (metis of_int_le_iff of_int_numeral of_int_power)
  then have "of_int m + 1 \<le> (2::rat) ^ bit_length m" by simp
  then have "y \<le> 2 ^ bit_length m" using my(2) by linarith
  then have "1 / x \<le> 2 ^ bit_length m" by (simp add: y_def)
  then have lo: "pow2 (ilog2 x) \<le> x"
    using assms unfolding il pow2_neg_nat by (simp add: field_simps)
  have "(2::rat) ^ (bit_length m - 1) \<le> of_int m"
    using b(1) by (metis of_int_le_iff of_int_numeral of_int_power)
  then have "2 ^ (bit_length m - 1) < y" using my(1) by linarith
  then have "2 ^ (bit_length m - 1) < 1 / x" by (simp add: y_def)
  then have hi: "x < pow2 (ilog2 x + 1)"
    using assms unfolding il1 pow2_neg_nat by (simp add: field_simps)
  from lo hi show ?thesis ..
qed

lemma round_half_even_err: "\<bar>of_int (round_half_even t) - t\<bar> \<le> 1 / 2"
proof -
  have "of_int \<lfloor>t\<rfloor> \<le> t" "t < of_int \<lfloor>t\<rfloor> + 1" by linarith+
  then show ?thesis
    by (auto simp: round_half_even_def Let_def)
qed

lemma round_pos_err:
  assumes "0 < x"
  shows "\<bar>round_pos x - x\<bar> \<le> x / 2 ^ 53"
proof -
  define e where "e = ilog2 x - 52"
  have pe: "0 < pow2 e" by (rule pow2_pos)
  have "pow2 (ilog2 x) \<le> x" using ilog2_bounds [OF assms] by simp
  then have lo: "pow2 e * 2 ^ 52 \<le> x" using pow2_52 [of "ilog2 x"] by (simp add: e_def)
  define t where "t = x / pow2 e"
  have xt: "x = t * pow2 e" using pe by (simp add: t_def)
  have "round_pos x - x = (of_int (round_half_even t) - t) * pow2 e"
    using pe by (simp add: round_pos_def e_def t_def Let_def algebra_simps)
  then have "\<bar>round_pos x - x\<bar> = \<bar>of_int (round_half_even t) - t\<bar> * pow2 e"
    using pe by (simp add: abs_mult)
  also have "\<dots> \<le> (1 / 2) * pow2 e"
    using round_half_even_err [of t] pe by (intro mult_right_mono) auto
  also have "\<dots> \<le> x / 2 ^ 53" using lo by simp
  finally show ?thesis .
qed

lemma round_binary64_err:
  assumes "0 < x"
  shows "x * (1 - 1 / 2 ^ 53) \<le> round_binary64 x" "round_binary64 x \<le> x * (1 + 1 / 2 ^ 53)"
proof -
  have rb: "round_binary64 x = round_pos x" using assms by (simp add: round_binary64_def)
  have "\<bar>round_pos x - x\<bar> \<le> x / 2 ^ 53" by (rule round_pos_err [OF assms])
  then have "round_pos x - x \<le> x / 2 ^ 53" "x - round_pos x \<le> x / 2 ^ 53" by linarith+
  then show "x * (1 - 1 / 2 ^ 53) \<le> round_binary64 x" "round_binary64 x \<le> x * (1 + 1 / 2 ^ 53)"
    unfolding rb by (simp_all add: algebra_simps)
qed

lemma round_binary64_pos: "0 < x \<Longrightarrow> 0 < round_binary64 x"
proof -
  assume x: "0 < x"
  have "x * (1 - 1 / 2 ^ 53) \<le> round_binary64 x" by (rule round_binary64_err(1) [OF x])
  moreover have "0 < x * (1 - 1 / 2 ^ 53)" using x by simp
  ultimately show ?thesis by linarith
qed

text \<open>Three roundings: the int to a float, the quotient, the product.\<close>

lemma int_mul_float_truediv_bounds:
  fixes n a b :: int
  assumes n: "0 < n" and a: "0 < a" and b: "0 < b"
  defines "P \<equiv> (of_int n * of_int a / of_int b :: rat)"
  defines "v \<equiv> int_mul_float n (round_binary64 (of_int a / of_int b))"
  shows "P * (1 - 1 / 2 ^ 50) \<le> v" and "v \<le> P * (1 + 1 / 2 ^ 50)"
proof -
  define u :: rat where "u = 1 / 2 ^ 53"
  define x1 where "x1 = round_binary64 (of_int n)"
  define q :: rat where "q = of_int a / of_int b"
  define x2 where "x2 = round_binary64 q"
  have npos: "(0::rat) < of_int n" using n by simp
  have qpos: "0 < q" using a b by (simp add: q_def)
  have x1b: "of_int n * (1 - u) \<le> x1" "x1 \<le> of_int n * (1 + u)"
    unfolding x1_def u_def by (rule round_binary64_err [OF npos])+
  have x2b: "q * (1 - u) \<le> x2" "x2 \<le> q * (1 + u)"
    unfolding x2_def u_def by (rule round_binary64_err [OF qpos])+
  have x1pos: "0 < x1" unfolding x1_def by (rule round_binary64_pos [OF npos])
  have x2pos: "0 < x2" unfolding x2_def by (rule round_binary64_pos [OF qpos])
  have ppos: "0 < x1 * x2" using x1pos x2pos by simp
  have v: "v = round_binary64 (x1 * x2)"
    by (simp add: v_def int_mul_float_def float_mul_def float_of_int_def x1_def x2_def q_def)
  have vb: "x1 * x2 * (1 - u) \<le> v" "v \<le> x1 * x2 * (1 + u)"
    unfolding v u_def by (rule round_binary64_err [OF ppos])+
  have P: "P = of_int n * q" by (simp add: P_def q_def)
  have u01: "0 \<le> 1 - u" "0 \<le> 1 + u" by (simp_all add: u_def)
  have lo1: "(of_int n * (1 - u)) * (q * (1 - u)) \<le> x1 * x2"
    using x1b(1) x2b(1) npos qpos u01 x1pos
    by (intro mult_mono) (auto intro: mult_nonneg_nonneg less_imp_le)
  have hi1: "x1 * x2 \<le> (of_int n * (1 + u)) * (q * (1 + u))"
    using x1b(2) x2b(2) npos qpos u01 x1pos x2pos
    by (intro mult_mono) (auto intro: mult_nonneg_nonneg less_imp_le)
  have lo2: "(of_int n * (1 - u)) * (q * (1 - u)) * (1 - u) \<le> x1 * x2 * (1 - u)"
    using lo1 u01(1) by (rule mult_right_mono)
  have hi2: "x1 * x2 * (1 + u) \<le> (of_int n * (1 + u)) * (q * (1 + u)) * (1 + u)"
    using hi1 u01(2) by (rule mult_right_mono)
  have Ppos: "0 < P" unfolding P using npos qpos by simp
  have c1: "(1 - 1 / 2 ^ 50 :: rat) \<le> (1 - u) * (1 - u) * (1 - u)" by (simp add: u_def)
  have c2: "(1 + u) * (1 + u) * (1 + u) \<le> (1 + 1 / 2 ^ 50 :: rat)" by (simp add: u_def)
  have "P * (1 - 1 / 2 ^ 50) \<le> P * ((1 - u) * (1 - u) * (1 - u))"
    using c1 Ppos by (intro mult_left_mono) auto
  also have "\<dots> = (of_int n * (1 - u)) * (q * (1 - u)) * (1 - u)" by (simp add: P)
  also have "\<dots> \<le> v" using lo2 vb(1) by linarith
  finally show "P * (1 - 1 / 2 ^ 50) \<le> v" .
  have "v \<le> (of_int n * (1 + u)) * (q * (1 + u)) * (1 + u)" using hi2 vb(2) by linarith
  also have "\<dots> = P * ((1 + u) * (1 + u) * (1 + u))" by (simp add: P)
  also have "\<dots> \<le> P * (1 + 1 / 2 ^ 50)" using c2 Ppos by (intro mult_left_mono) auto
  finally show "v \<le> P * (1 + 1 / 2 ^ 50)" .
qed

lemma int_mul_float_truediv_pos:
  fixes n a b :: int
  assumes "0 < n" "0 < a" "0 < b"
  shows "0 < int_mul_float n (round_binary64 (of_int a / of_int b))"
proof -
  have "0 < (of_int n * of_int a / of_int b :: rat) * (1 - 1 / 2 ^ 50)"
    using assms by simp
  with int_mul_float_truediv_bounds(1) [OF assms] show ?thesis by linarith
qed

text \<open>Multiplying back by the divisor misses the dividend by less than one.\<close>

lemma scale_back_near:
  fixes n a :: int
  assumes n: "0 < n" and a: "0 < a" and small: "a < 2 ^ 40"
  defines "v \<equiv> int_mul_float n (round_binary64 (of_int a / of_int n))"
  shows "int_of_float v = a - 1 \<or> int_of_float v = a"
proof -
  have P: "(of_int n * of_int a / of_int n :: rat) = of_int a" using n by simp
  from int_mul_float_truediv_bounds [OF n a n]
  have b: "of_int a * (1 - 1 / 2 ^ 50) \<le> v" "v \<le> of_int a * (1 + 1 / 2 ^ 50)"
    unfolding v_def P by simp_all
  have ar: "(of_int a :: rat) < 2 ^ 40" using small
    by (metis of_int_less_iff of_int_numeral of_int_power)
  have apos: "(0::rat) < of_int a" using a by simp
  have lo: "of_int a - 1 < v" using b(1) ar by (simp add: algebra_simps)
  have hi: "v < of_int a + 1" using b(2) ar by (simp add: algebra_simps)
  have "of_int (a - 1) \<le> v" using lo by simp
  then have f1: "a - 1 \<le> \<lfloor>v\<rfloor>" by (simp only: le_floor_iff)
  have "v < of_int (a + 1)" using hi by simp
  then have f2: "\<lfloor>v\<rfloor> < a + 1" by (simp only: floor_less_iff)
  have "0 \<le> v" using lo a apos by linarith
  then have "int_of_float v = \<lfloor>v\<rfloor>" by (simp add: int_of_float_def)
  with f1 f2 show ?thesis by linarith
qed

lemma fallback_width_fits:
  fixes w h :: int
  assumes w: "0 < w" and h: "0 < h"
    and over: "2778 < int_of_float (int_mul_float h (round_binary64 (1284 / of_int w)))"
  shows "int_of_float (int_mul_float w (round_binary64 (2778 / of_int h))) \<le> 1283"
proof -
  define A where "A = int_mul_float h (round_binary64 (of_int 1284 / of_int w))"
  define B where "B = int_mul_float w (round_binary64 (of_int 2778 / of_int h))"
  define W :: rat where "W = of_int w"
  define H :: rat where "H = of_int h"
  have Wpos: "0 < W" and Hpos: "0 < H" using w h by (simp_all add: W_def H_def)
  have Apos: "0 < A" unfolding A_def by (rule int_mul_float_truediv_pos) (use w h in simp_all)
  have Bpos: "0 < B" unfolding B_def by (rule int_mul_float_truediv_pos) (use w h in simp_all)
  have "2778 < \<lfloor>A\<rfloor>" using over Apos by (simp add: A_def int_of_float_def)
  then have "2779 \<le> \<lfloor>A\<rfloor>" by simp
  then have A2779: "2779 \<le> A" by (simp add: le_floor_iff)
  have "A \<le> (of_int h * of_int 1284 / of_int w) * (1 + 1 / 2 ^ 50)"
    unfolding A_def by (rule int_mul_float_truediv_bounds(2)) (use w h in simp_all)
  then have "2779 \<le> (H * 1284 / W) * (1 + 1 / 2 ^ 50)" using A2779 by (simp add: W_def H_def)
  then have "2779 * W \<le> H * 1284 * (1 + 1 / 2 ^ 50)" using Wpos by (simp add: field_simps)
  then have key: "W * 2778 * (1 + 1 / 2 ^ 50) < 1284 * H" using Hpos Wpos by (simp add: algebra_simps)
  have "B \<le> (of_int w * of_int 2778 / of_int h) * (1 + 1 / 2 ^ 50)"
    unfolding B_def by (rule int_mul_float_truediv_bounds(2)) (use w h in simp_all)
  then have "B \<le> (W * 2778 * (1 + 1 / 2 ^ 50)) / H" by (simp add: W_def H_def)
  also have "\<dots> < 1284" using key Hpos by (simp add: field_simps)
  finally have "B < of_int 1284" by simp
  then have "\<lfloor>B\<rfloor> < 1284" by (simp only: floor_less_iff)
  moreover have "int_of_float B = \<lfloor>B\<rfloor>" using Bpos by (simp add: int_of_float_def)
  ultimately show ?thesis by (simp add: B_def)
qed

section \<open>The scaling step\<close>

text \<open>
  C1. For every source image with positive dimensions \<open>(w, h)\<close>, the scaling step
  of the store-screenshot pipeline produces new dimensions with
  \<open>new_width \<le> 1284\<close>, \<open>new_height \<le> 2778\<close>, and at least one of
  \<open>new_width = 1284\<close> or \<open>new_height = 2778\<close>. The floats are rounded as
  binary64 rounds them; the bound on the width in the height-fitted branch is
  where the rounding matters.
\<close>

theorem new_size_fits_box:
  fixes w h :: int
  assumes w: "0 < w" and h: "0 < h"
  shows "\<exists>scale new_width new_height.
           new_size w h = Inr (scale, new_width, new_height) \<and>
           new_width \<le> 1284 \<and> new_height \<le> 2778 \<and>
           (new_width = 1284 \<or> new_height = 2778)"
proof (cases "2778 < int_of_float (int_mul_float h (round_binary64 (1284 / of_int w)))")
  case True
  from fallback_width_fits [OF w h True]
  have "int_of_float (int_mul_float w (round_binary64 (2778 / of_int h))) \<le> 1284" by simp
  with True w h show ?thesis
    by (simp add: new_size_def truediv_def APPSTORE_WIDTH_def APPSTORE_HEIGHT_def)
next
  case False
  with w h show ?thesis
    by (simp add: new_size_def truediv_def APPSTORE_WIDTH_def APPSTORE_HEIGHT_def)
qed

theorem new_size_fits_box_witness:
  "(0::int) < 1170 \<and> (0::int) < 2532 \<and>
   (\<exists>scale new_width new_height.
      new_size 1170 2532 = Inr (scale, new_width, new_height) \<and>
      new_width \<le> 1284 \<and> new_height \<le> 2778 \<and>
      (new_width = 1284 \<or> new_height = 2778))"
  using new_size_fits_box [of 1170 2532] by simp

text \<open>
  C2, as the spec states it, fails on the code at two points. A 39 by 39 image:
  the code sets \<open>new_width\<close> to 1284 itself, while the truncation of
  \<open>39 * (1284 / 39)\<close> in binary64 is 1283. A 2568 by 5557 image: \<open>h * s\<close> is
  2778.5, which exceeds 2778, but the code compares the truncated height 2778 and
  keeps the width-fitted scale, giving 1284 by 2778 where the spec's policy gives
  1283 by 2778.
\<close>

theorem spec_aspect_fit_differs:
  "new_size 39 39 = Inr (2316755577541553 / 70368744177664, 1284, 1283) \<and>
   spec_aspect_fit 39 39 = Inr (2316755577541553 / 70368744177664, 1283, 1283) \<and>
   new_size 2568 5557 = Inr (1 / 2, 1284, 2778) \<and>
   int_mul_float 5557 (1 / 2) = 5557 / 2 \<and>
   spec_aspect_fit 2568 5557 = Inr (9005578380302493 / 18014398509481984, 1283, 2778)"
  by code_simp

text \<open>
  C2, amended. The scaler computes \<open>s = W / w\<close> first; if the truncated height
  \<open>int(h * s)\<close> exceeds \<open>H\<close> it recomputes \<open>s = H / h\<close> instead. The dimension
  of the axis that is not fitted is the truncation of the product: \<open>int(h * s)\<close>
  in the width-fitted branch, \<open>int(w * s)\<close> in the height-fitted branch. The
  fitted axis is set to the target value itself, which the truncation of the
  floating-point product equals or misses by one pixel.
\<close>

theorem new_size_policy:
  fixes w h :: int
  assumes w: "0 < w" and h: "0 < h"
  shows "\<exists>s. truediv 1284 w = Inr s \<and>
          (if 2778 < int_of_float (int_mul_float h s)
           then \<exists>s'. truediv 2778 h = Inr s' \<and>
                  new_size w h = Inr (s', int_of_float (int_mul_float w s'), 2778) \<and>
                  (int_of_float (int_mul_float h s') = 2777 \<or>
                   int_of_float (int_mul_float h s') = 2778)
           else new_size w h = Inr (s, 1284, int_of_float (int_mul_float h s)) \<and>
                (int_of_float (int_mul_float w s) = 1283 \<or>
                 int_of_float (int_mul_float w s) = 1284))"
proof -
  have nw: "int_of_float (int_mul_float w (round_binary64 (of_int 1284 / of_int w))) = 1284 - 1 \<or>
            int_of_float (int_mul_float w (round_binary64 (of_int 1284 / of_int w))) = 1284"
    by (rule scale_back_near) (use w in simp_all)
  have nh: "int_of_float (int_mul_float h (round_binary64 (of_int 2778 / of_int h))) = 2778 - 1 \<or>
            int_of_float (int_mul_float h (round_binary64 (of_int 2778 / of_int h))) = 2778"
    by (rule scale_back_near) (use h in simp_all)
  show ?thesis
    using w h nw nh
    by (simp add: new_size_def truediv_def APPSTORE_WIDTH_def APPSTORE_HEIGHT_def)
qed

theorem new_size_policy_witness:
  "(0::int) < 39 \<and>
   (\<exists>s. truediv 1284 39 = Inr s \<and>
      (if 2778 < int_of_float (int_mul_float 39 s)
       then \<exists>s'. truediv 2778 39 = Inr s' \<and>
              new_size 39 39 = Inr (s', int_of_float (int_mul_float 39 s'), 2778) \<and>
              (int_of_float (int_mul_float 39 s') = 2777 \<or>
               int_of_float (int_mul_float 39 s') = 2778)
       else new_size 39 39 = Inr (s, 1284, int_of_float (int_mul_float 39 s)) \<and>
            (int_of_float (int_mul_float 39 s) = 1283 \<or>
             int_of_float (int_mul_float 39 s) = 1284)))"
  using new_size_policy [of 39 39] by simp

text \<open>
  C8. A 1000 by 1000 source image: the scale is the binary64 number nearest to
  1.284, the width-first height is 1284, which does not exceed 2778, so the new
  dimensions are 1284 by 1284; the paste offset is \<open>(0, 747)\<close>, which leaves
  747 rows above the image and 747 rows below it.
\<close>

theorem aspect_fit_example_B:
  "new_size 1000 1000 = Inr (round_binary64 (1284 / 1000), 1284, 1284) \<and>
   round_binary64 (1284 / 1000) = 5782621921543717 / 4503599627370496 \<and>
   \<bar>round_binary64 (1284 / 1000) - 1284 / 1000\<bar> < 1 / 10 ^ 16 \<and>
   int_of_float (int_mul_float 1000 (round_binary64 (1284 / 1000))) = 1284 \<and>
   paste_offset 1284 1284 = (0, 747) \<and>
   APPSTORE_HEIGHT - (snd (paste_offset 1284 1284) + 1284) = 747"
  by code_simp

section \<open>The letterbox step\<close>

lemma paste_size [simp]:
  "width (paste canvas im box) = width canvas" "height (paste canvas im box) = height canvas"
  by (simp_all add: paste_def split: prod.splits)

lemma new_image_size [simp]:
  "width (new_image (w, h) c) = w" "height (new_image (w, h) c) = h"
  by (simp_all add: new_image_def)

lemma new_image_px [simp]: "px (new_image sz c) i j = c"
  by (simp add: new_image_def)

lemma paste_px:
  "px (paste canvas im (x, y)) i j =
     (if x \<le> int i \<and> int i < x + int (width im) \<and> y \<le> int j \<and> int j < y + int (height im)
      then px im (nat (int i - x)) (nat (int j - y))
      else px canvas i j)"
  by (simp add: paste_def)

text \<open>
  C3. For every scaled image of dimensions \<open>(new_width, new_height)\<close> within the
  box, the letterbox step pastes it at the offsets
  \<open>x = (1284 - new_width) div 2\<close> and \<open>y = (2778 - new_height) div 2\<close> on a
  canvas of one solid colour: the image lies wholly inside the canvas, every
  pixel outside it keeps the background, and the composed image is exactly
  1284 by 2778 whatever the aspect ratio of the input.
\<close>

theorem letterbox_centred:
  assumes wd: "int (width img_resized) = new_width"
    and ht: "int (height img_resized) = new_height"
    and fw: "new_width \<le> 1284" and fh: "new_height \<le> 2778"
  shows "\<exists>x y. paste_offset new_width new_height = (int x, int y) \<and>
           int x = (1284 - new_width) div 2 \<and> int y = (2778 - new_height) div 2 \<and>
           x + width img_resized \<le> 1284 \<and> y + height img_resized \<le> 2778 \<and>
           width (letterbox img_resized new_width new_height) = 1284 \<and>
           height (letterbox img_resized new_width new_height) = 2778 \<and>
           (\<forall>i j. px (letterbox img_resized new_width new_height) i j =
              (if x \<le> i \<and> i < x + width img_resized \<and> y \<le> j \<and> j < y + height img_resized
               then px img_resized (i - x) (j - y)
               else (0, 0, 0)))"
proof -
  define x where "x = nat ((1284 - new_width) div 2)"
  define y where "y = nat ((2778 - new_height) div 2)"
  have x: "int x = (1284 - new_width) div 2" using fw by (simp add: x_def)
  have y: "int y = (2778 - new_height) div 2" using fh by (simp add: y_def)
  have off: "paste_offset new_width new_height = (int x, int y)"
    by (simp add: paste_offset_def APPSTORE_WIDTH_def APPSTORE_HEIGHT_def x y)
  have nwpos: "0 \<le> new_width" "0 \<le> new_height" using wd ht by auto
  have fitx: "x + width img_resized \<le> 1284" using x wd fw nwpos by linarith
  have fity: "y + height img_resized \<le> 2778" using y ht fh nwpos by linarith
  have sz: "width (letterbox img_resized new_width new_height) = 1284"
    "height (letterbox img_resized new_width new_height) = 2778"
    by (simp_all add: letterbox_def APPSTORE_WIDTH_def APPSTORE_HEIGHT_def)
  have pix: "px (letterbox img_resized new_width new_height) i j =
              (if x \<le> i \<and> i < x + width img_resized \<and> y \<le> j \<and> j < y + height img_resized
               then px img_resized (i - x) (j - y)
               else (0, 0, 0))" for i j
  proof -
    have c: "(int x \<le> int i \<and> int i < int x + int (width img_resized) \<and>
              int y \<le> int j \<and> int j < int y + int (height img_resized)) =
             (x \<le> i \<and> i < x + width img_resized \<and> y \<le> j \<and> j < y + height img_resized)"
      by auto
    have d: "nat (int i - int x) = i - x" "nat (int j - int y) = j - y" by simp_all
    show ?thesis
      unfolding letterbox_def Let_def off paste_px c d by simp
  qed
  from off x y fitx fity sz pix show ?thesis by blast
qed

theorem letterbox_centred_witness:
  "int (width (new_image (1284, 1284) (1, 2, 3) :: rgb image)) = 1284 \<and>
   int (height (new_image (1284, 1284) (1, 2, 3) :: rgb image)) = 1284 \<and>
   (1284::int) \<le> 1284 \<and> (1284::int) \<le> 2778 \<and>
   paste_offset 1284 1284 = (0, 747) \<and>
   height (letterbox (new_image (1284, 1284) (1, 2, 3) :: rgb image) 1284 1284) = 2778 \<and>
   px (letterbox (new_image (1284, 1284) (1, 2, 3) :: rgb image) 1284 1284) 0 746 = (0, 0, 0) \<and>
   px (letterbox (new_image (1284, 1284) (1, 2, 3) :: rgb image) 1284 1284) 0 747 = (1, 2, 3)"
  using letterbox_centred [of "new_image (1284, 1284) (1, 2, 3)" 1284 1284]
  by (auto simp: paste_offset_def APPSTORE_WIDTH_def APPSTORE_HEIGHT_def)

section \<open>The mockup compositor\<close>

lemma add_rounded_corners_size [simp]:
  "width (add_rounded_corners img r) = width img"
  "height (add_rounded_corners img r) = height img"
  by (simp_all add: add_rounded_corners_def putalpha_def)


lemma stretch_to_screen_Inr:
  "\<exists>im. stretch_to_screen lanczos screenshot = Inr im \<and> width im = 1178 \<and> height im = 2555"
  by (auto simp: stretch_to_screen_def resize_def SCREEN_LEFT_def SCREEN_TOP_def
      SCREEN_RIGHT_def SCREEN_BOTTOM_def)

text \<open>
  C5. The compositor allocates a fully transparent canvas of the size of the
  frame image, pastes the masked screenshot at \<open>(90, 90)\<close>, and composites the
  frame over that canvas: in every pixel the canvas is the backdrop and the
  frame is the layer on top. The result has exactly the frame's dimensions.
\<close>

theorem mockup_frame_on_top:
  "\<exists>s r. stretch_to_screen lanczos screenshot = Inr s \<and>
     mockup_image lanczos over bezel screenshot = Inr r \<and>
     width (mockup_canvas bezel (add_rounded_corners s CORNER_RADIUS)) = width bezel \<and>
     height (mockup_canvas bezel (add_rounded_corners s CORNER_RADIUS)) = height bezel \<and>
     (\<forall>i j. px (mockup_canvas bezel (add_rounded_corners s CORNER_RADIUS)) i j =
        (if 90 \<le> i \<and> i < 90 + 1178 \<and> 90 \<le> j \<and> j < 90 + 2555
         then px (add_rounded_corners s CORNER_RADIUS) (i - 90) (j - 90)
         else (0, 0, 0, 0))) \<and>
     width r = width bezel \<and> height r = height bezel \<and>
     (\<forall>i j. px r i j =
        over (px (mockup_canvas bezel (add_rounded_corners s CORNER_RADIUS)) i j) (px bezel i j))"
proof -
  obtain s where s: "stretch_to_screen lanczos screenshot = Inr s"
    and sw: "width s = 1178" and sh: "height s = 2555"
    using stretch_to_screen_Inr by blast
  define m where "m = add_rounded_corners s CORNER_RADIUS"
  define canvas where "canvas = mockup_canvas bezel m"
  have csz: "width canvas = width bezel" "height canvas = height bezel"
    by (simp_all add: canvas_def mockup_canvas_def)
  have cpx: "px canvas i j =
        (if 90 \<le> i \<and> i < 90 + 1178 \<and> 90 \<le> j \<and> j < 90 + 2555
         then px m (i - 90) (j - 90) else (0, 0, 0, 0))" for i j
  proof -
    have c: "(90 \<le> int i \<and> int i < 90 + int (width m) \<and> 90 \<le> int j \<and> int j < 90 + int (height m)) =
             (90 \<le> i \<and> i < 90 + 1178 \<and> 90 \<le> j \<and> j < 90 + 2555)"
      by (auto simp: m_def sw sh)
    have d: "nat (int i - 90) = i - 90" "nat (int j - 90) = j - 90" by simp_all
    show ?thesis
      unfolding canvas_def mockup_canvas_def Let_def SCREEN_LEFT_def SCREEN_TOP_def paste_px c d
      by simp
  qed
  define r where "r = \<lparr>width = width canvas, height = height canvas,
                        px = (\<lambda>i j. over (px canvas i j) (px bezel i j))\<rparr>"
  have r: "mockup_image lanczos over bezel screenshot = Inr r"
    by (simp add: mockup_image_def s Let_def alpha_composite_def csz r_def
        canvas_def [symmetric] m_def [symmetric])
  have rsz: "width r = width bezel" "height r = height bezel" by (simp_all add: r_def csz)
  have rpx: "px r i j = over (px canvas i j) (px bezel i j)" for i j by (simp add: r_def)
  from s r csz cpx rsz rpx show ?thesis unfolding canvas_def m_def by blast
qed

section \<open>The rounded mask\<close>





section \<open>The output of the store-screenshot pipeline\<close>

lemma letterbox_size [simp]:
  "width (letterbox im nw nh) = 1284" "height (letterbox im nw nh) = 2778"
  by (simp_all add: letterbox_def APPSTORE_WIDTH_def APPSTORE_HEIGHT_def)

lemma letterbox_px:
  "px (letterbox im nw nh) i j =
     (if (1284 - nw) div 2 \<le> int i \<and> int i < (1284 - nw) div 2 + int (width im) \<and>
         (2778 - nh) div 2 \<le> int j \<and> int j < (2778 - nh) div 2 + int (height im)
      then px im (nat (int i - (1284 - nw) div 2)) (nat (int j - (2778 - nh) div 2))
      else (0, 0, 0))"
  by (simp add: letterbox_def paste_offset_def paste_px APPSTORE_WIDTH_def APPSTORE_HEIGHT_def)

lemma save_files:
  "save st p pic = Inr st' \<Longrightarrow> files st' p = Some (ImageFile pic)"
  by (auto simp: save_def split: option.splits entry.splits)

lemma print_files [simp]: "files (print st line) = files st"
  by (simp add: print_def)

lemma print_stdout [simp]: "stdout (print st line) = stdout st @ [line]"
  by (simp add: print_def)

text \<open>
  C10. Every image the store-screenshot pipeline saves is an \<open>RGB\<close> image,
  which has no alpha band: the source is converted to \<open>RGB\<close>, dropping any
  alpha, before its size is read and before it is resized, and every pixel of
  the canvas outside the pasted image is black, \<open>(0, 0, 0)\<close>.
\<close>

theorem appstore_output_rgb:
  assumes run: "create_appstore_screenshot lanczos screenshot_path output_path st = Inr st'"
  shows "\<exists>pic scale new_width new_height img_resized canvas.
     open_image st screenshot_path = Inr pic \<and>
     new_size (int (width (convert_RGB pic))) (int (height (convert_RGB pic))) =
       Inr (scale, new_width, new_height) \<and>
     resize lanczos (convert_RGB pic) (new_width, new_height) = Inr img_resized \<and>
     files st' output_path = Some (ImageFile (RGB_picture canvas)) \<and>
     width canvas = 1284 \<and> height canvas = 2778 \<and>
     (\<forall>i j. px canvas i j =
        (if (1284 - new_width) div 2 \<le> int i \<and>
            int i < (1284 - new_width) div 2 + int (width img_resized) \<and>
            (2778 - new_height) div 2 \<le> int j \<and>
            int j < (2778 - new_height) div 2 + int (height img_resized)
         then px img_resized (nat (int i - (1284 - new_width) div 2))
                (nat (int j - (2778 - new_height) div 2))
         else (0, 0, 0))) \<and>
     (\<forall>im i j. px (convert_RGB (RGBA_picture im)) i j =
        (case px im i j of (r, g, b, a) \<Rightarrow> (r, g, b)))"
proof -
  from run obtain pic where pic: "open_image st screenshot_path = Inr pic"
    by (auto simp: create_appstore_screenshot_def split: sum.splits)
  from run pic obtain canvas where canvas: "appstore_canvas lanczos pic = Inr canvas"
    by (auto simp: create_appstore_screenshot_def split: sum.splits)
  from run pic canvas obtain st1 where st1: "save st output_path (RGB_picture canvas) = Inr st1"
    and st': "st' = print st1 (''  Saved: '' @ output_path @ '' ('' @
                      str_int APPSTORE_WIDTH @ ''x'' @ str_int APPSTORE_HEIGHT @ '')'')"
    by (auto simp: create_appstore_screenshot_def split: sum.splits)
  from canvas obtain scale new_width new_height img_resized where
    ns: "new_size (int (width (convert_RGB pic))) (int (height (convert_RGB pic))) =
       Inr (scale, new_width, new_height)"
    and rs: "resize lanczos (convert_RGB pic) (new_width, new_height) = Inr img_resized"
    and cv: "canvas = letterbox img_resized new_width new_height"
    by (auto simp: appstore_canvas_def Let_def split: sum.splits prod.splits)
  have f: "files st' output_path = Some (ImageFile (RGB_picture canvas))"
    using save_files [OF st1] by (simp add: st')
  have sz: "width canvas = 1284" "height canvas = 2778" by (simp_all add: cv)
  have pix: "\<forall>i j. px canvas i j =
        (if (1284 - new_width) div 2 \<le> int i \<and>
            int i < (1284 - new_width) div 2 + int (width img_resized) \<and>
            (2778 - new_height) div 2 \<le> int j \<and>
            int j < (2778 - new_height) div 2 + int (height img_resized)
         then px img_resized (nat (int i - (1284 - new_width) div 2))
                (nat (int j - (2778 - new_height) div 2))
         else (0, 0, 0))"
    unfolding cv by (intro allI) (rule letterbox_px)
  have conv: "\<forall>im i j. px (convert_RGB (RGBA_picture im)) i j =
        (case px im i j of (r, g, b, a) \<Rightarrow> (r, g, b))"
    by (simp add: convert_RGB_def)
  from pic ns rs f sz pix conv show ?thesis by blast
qed

lemma new_size_1000: "new_size 1000 1000 = Inr (5782621921543717 / 4503599627370496, 1284, 1284)"
  by code_simp

theorem appstore_output_rgb_witness:
  "\<exists>st'. create_appstore_screenshot (\<lambda>im sz i j. px im 0 0) ''/site/Workout.PNG''
           ''/site/appstore/Workout-appstore.png''
           \<lparr>files = [''/site/Workout.PNG'' \<mapsto>
               ImageFile (RGBA_picture (new_image (1000, 1000) (10, 20, 30, 40)))],
            stdout = []\<rparr> = Inr st' \<and>
     (\<exists>canvas. files st' ''/site/appstore/Workout-appstore.png'' =
          Some (ImageFile (RGB_picture canvas)) \<and>
        width canvas = 1284 \<and> height canvas = 2778)"
proof -
  have "\<exists>st'. create_appstore_screenshot (\<lambda>im sz i j. px im 0 0) ''/site/Workout.PNG''
           ''/site/appstore/Workout-appstore.png''
           \<lparr>files = [''/site/Workout.PNG'' \<mapsto>
               ImageFile (RGBA_picture (new_image (1000, 1000) (10, 20, 30, 40)))],
            stdout = []\<rparr> = Inr st'"
    by (simp add: create_appstore_screenshot_def open_image_def appstore_canvas_def
        convert_RGB_def new_image_def new_size_1000 resize_def save_def Let_def)
  then obtain st' where h: "create_appstore_screenshot (\<lambda>im sz i j. px im 0 0)
           ''/site/Workout.PNG'' ''/site/appstore/Workout-appstore.png''
           \<lparr>files = [''/site/Workout.PNG'' \<mapsto>
               ImageFile (RGBA_picture (new_image (1000, 1000) (10, 20, 30, 40)))],
            stdout = []\<rparr> = Inr st'" ..
  from appstore_output_rgb [OF h] h show ?thesis by blast
qed

section \<open>The batch runners\<close>

text \<open>
  C6. If the bezel file is missing, \<open>main\<close> of the mockup script stops before
  it looks at any screenshot: it writes no file, prints the error, and returns
  normally, so nothing is raised into the caller.
\<close>

theorem missing_bezel_aborts:
  assumes "\<not> path_exists st (BEZEL_PATH script_dir)"
  shows "\<exists>st'. mockup_main lanczos over script_dir st = Inr st' \<and>
           files st' = files st \<and>
           stdout st' = stdout st @
             [''Creating iPhone mockups...'',
              ''Bezel: '' @ BEZEL_PATH script_dir,
              ''Error: Bezel not found at '' @ BEZEL_PATH script_dir]"
  using assms by (simp add: mockup_main_def Let_def path_exists_def)

theorem missing_bezel_aborts_witness:
  "\<not> path_exists \<lparr>files = [''/site/Workout.PNG'' \<mapsto> OtherFile], stdout = []\<rparr> (BEZEL_PATH ''/site'') \<and>
   (\<exists>st'. mockup_main (\<lambda>im sz i j. px im 0 0) (\<lambda>a b. b) ''/site''
             \<lparr>files = [''/site/Workout.PNG'' \<mapsto> OtherFile], stdout = []\<rparr> = Inr st' \<and>
      files st' = [''/site/Workout.PNG'' \<mapsto> OtherFile] \<and>
      stdout st' =
        [''Creating iPhone mockups...'',
         ''Bezel: /site/iPhone 16 - Black - Portrait.png'',
         ''Error: Bezel not found at /site/iPhone 16 - Black - Portrait.png''])"
proof -
  have h: "\<not> path_exists \<lparr>files = [''/site/Workout.PNG'' \<mapsto> OtherFile], stdout = []\<rparr>
             (BEZEL_PATH ''/site'')"
    by (simp add: path_exists_def BEZEL_PATH_def path_join_def)
  have b: "BEZEL_PATH ''/site'' = ''/site/iPhone 16 - Black - Portrait.png''"
    by (simp add: BEZEL_PATH_def path_join_def)
  from missing_bezel_aborts [OF h, of "\<lambda>im sz i j. px im 0 0" "\<lambda>a b. b"] h show ?thesis
    by (simp add: b)
qed





end
